theory Spec2Isabelle
  imports Complex_Main "HOL-Library.Log_Nat"
begin

section \<open>JavaScript values carried by the upstream payloads\<close>

text \<open>
  The three achievement lists reach \<open>transformAchievementsData\<close> typed \<open>any[]\<close>: their
  elements are objects parsed from JSON and their fields may hold any JSON value, or be
  missing. A field value is one of the primitives below, or a reference to an object or
  array, known by its identity only. A missing field reads as \<open>undefined\<close>. JSON has no
  NaN and no infinities, and \<open>-0\<close> and \<open>0\<close> are the same key and the same falsy value, so
  a number is a real, and HOL's equality on \<open>jsval\<close> is the SameValueZero comparison of
  the \<open>Map\<close> keys as well as \<open>===\<close>.
\<close>

datatype jsval =
    JUndefined
  | JNull
  | JBool bool
  | JNum real
  | JStr string
  | JRef nat

text \<open>JavaScript's ToBoolean, as \<open>x || y\<close> and \<open>if (x)\<close> use it.\<close>

fun truthy :: "jsval \<Rightarrow> bool" where
  "truthy JUndefined = False"
| "truthy JNull = False"
| "truthy (JBool b) = b"
| "truthy (JNum x) = (x \<noteq> 0)"
| "truthy (JStr s) = (s \<noteq> [])"
| "truthy (JRef r) = True"

text \<open>\<open>x || undefined\<close>\<close>

definition or_undefined :: "jsval \<Rightarrow> jsval" where
  "or_undefined x = (if truthy x then x else JUndefined)"

section \<open>The insertion-ordered Map of the merge\<close>

text \<open>
  A JavaScript \<open>Map\<close> keeps its keys in insertion order: \<open>set\<close> on a key it already
  holds replaces the value where the key stands, \<open>set\<close> on a new key appends.
  \<open>Array.from(m.values())\<close> lists the values in that order. The map is an association
  list, oldest key first.
\<close>

type_synonym ('k, 'v) jsmap = "('k \<times> 'v) list"

fun map_set :: "'k \<Rightarrow> 'v \<Rightarrow> ('k, 'v) jsmap \<Rightarrow> ('k, 'v) jsmap" where
  "map_set k v [] = [(k, v)]"
| "map_set k v ((k', v') # m) =
     (if k' = k then (k, v) # m else (k', v') # map_set k v m)"

definition map_get :: "('k, 'v) jsmap \<Rightarrow> 'k \<Rightarrow> 'v option" where
  "map_get m k = map_of m k"

definition map_values :: "('k, 'v) jsmap \<Rightarrow> 'v list" where
  "map_values m = map snd m"

text \<open>
  \<open>m.get(k)\<close> hands out the stored object itself, so an assignment to one of its fields
  changes the value the map holds under \<open>k\<close>, and nothing else of the map.
\<close>

fun map_mutate :: "'k \<Rightarrow> ('v \<Rightarrow> 'v) \<Rightarrow> ('k, 'v) jsmap \<Rightarrow> ('k, 'v) jsmap" where
  "map_mutate k f [] = []"
| "map_mutate k f ((k', v') # m) =
     (if k' = k then (k', f v') # m else (k', v') # map_mutate k f m)"

section \<open>SteamService.transformAchievementsData\<close>

text \<open>The fields the merge reads from an entry of each upstream list.\<close>

record SchemaEntry =
  s_name :: jsval
  s_displayName :: jsval
  s_description :: jsval
  s_icon :: jsval
  s_icongray :: jsval
  s_hidden :: jsval

record GlobalEntry =
  g_name :: jsval
  g_percent :: jsval

record UserEntry =
  u_apiname :: jsval
  u_achieved :: jsval
  u_unlocktime :: jsval

text \<open>
  The record the merge builds (\<open>Partial<Achievement>\<close>). \<open>unlockTime\<close> is a property the
  schema pass does not create; a property that is missing and one that holds \<open>undefined\<close>
  are both \<open>JUndefined\<close> here (neither is serialised).
\<close>

record Achievement =
  apiName :: jsval
  name :: jsval
  description :: jsval
  icon_default :: jsval
  icon_achieved :: jsval
  globalPercentage :: jsval
  unlocked :: bool
  unlockTime :: jsval
  platform :: string
  hidden :: bool

type_synonym achievementMap = "(jsval, Achievement) jsmap"

text \<open>The body of \<open>schema.forEach\<close>.\<close>

definition schemaRecord :: "SchemaEntry \<Rightarrow> Achievement" where
  "schemaRecord ach =
     \<lparr> apiName = s_name ach,
       name = s_displayName ach,
       description = s_description ach,
       icon_default = s_icon ach,
       icon_achieved = s_icongray ach,
       globalPercentage = JNum 0,
       unlocked = False,
       unlockTime = JUndefined,
       platform = ''steam'',
       hidden = (s_hidden ach = JNum 1) \<rparr>"

definition schemaStep :: "SchemaEntry \<Rightarrow> achievementMap \<Rightarrow> achievementMap" where
  "schemaStep ach m = map_set (s_name ach) (schemaRecord ach) m"

text \<open>The body of \<open>globalStats.forEach\<close>.\<close>

definition globalStep :: "GlobalEntry \<Rightarrow> achievementMap \<Rightarrow> achievementMap" where
  "globalStep globalAch m =
     (case map_get m (g_name globalAch) of
        None \<Rightarrow> m
      | Some achievement \<Rightarrow>
          map_mutate (g_name globalAch)
            (\<lambda>a. a\<lparr>globalPercentage := g_percent globalAch\<rparr>) m)"

text \<open>The body of \<open>userAchievements.forEach\<close>.\<close>

definition userStep :: "UserEntry \<Rightarrow> achievementMap \<Rightarrow> achievementMap" where
  "userStep userAch m =
     (case map_get m (u_apiname userAch) of
        None \<Rightarrow> m
      | Some achievement \<Rightarrow>
          map_mutate (u_apiname userAch)
            (\<lambda>a. a\<lparr>unlocked := (u_achieved userAch = JNum 1),
                   unlockTime := or_undefined (u_unlocktime userAch)\<rparr>) m)"

text \<open>
  The three passes in the source's order, then the values in insertion order. The
  \<open>safeParse\<close> that follows only logs a warning; the list is returned whatever it finds.
\<close>

definition transformAchievementsData ::
  "UserEntry list \<Rightarrow> GlobalEntry list \<Rightarrow> SchemaEntry list \<Rightarrow> Achievement list" where
  "transformAchievementsData userAchievements globalStats schema =
     (let m0 = fold schemaStep schema [];
          m1 = fold globalStep globalStats m0;
          m2 = fold userStep userAchievements m1
      in map_values m2)"

text \<open>
  The same merge with the two overlay passes exchanged: user achievements first, global
  percentages second.
\<close>

definition transformAchievementsData_swapped ::
  "UserEntry list \<Rightarrow> GlobalEntry list \<Rightarrow> SchemaEntry list \<Rightarrow> Achievement list" where
  "transformAchievementsData_swapped userAchievements globalStats schema =
     (let m0 = fold schemaStep schema [];
          m1 = fold userStep userAchievements m0;
          m2 = fold globalStep globalStats m1
      in map_values m2)"

text \<open>Reading the merged list: the first record that carries a key.\<close>

definition recordOf :: "jsval \<Rightarrow> Achievement list \<Rightarrow> Achievement option" where
  "recordOf k achievements = find (\<lambda>a. apiName a = k) achievements"

text \<open>Every record of the map is stored under its own \<open>apiName\<close>.\<close>

definition keyed :: "achievementMap \<Rightarrow> bool" where
  "keyed m = list_all (\<lambda>(k, a). apiName a = k) m"

section \<open>SteamService.getGameAchievements\<close>

text \<open>
  The bodies of the three upstream replies, as far as the service reads them:
  \<open>{ playerstats?: { achievements?: any[] } }\<close>,
  \<open>{ achievementpercentages?: { achievements?: any[] } }\<close> and
  \<open>{ game?: { availableGameStats?: { achievements?: any[] } } }\<close>. Each \<open>?\<close> is one
  \<open>option\<close>, outermost first.
\<close>

type_synonym UserStatsData = "UserEntry list option option"
type_synonym GlobalStatsData = "GlobalEntry list option option"
type_synonym SchemaData = "SchemaEntry list option option option"

text \<open>\<open>userStats.playerstats?.achievements || []\<close> (an empty array is truthy and stays).\<close>

definition userAchievementsOf :: "UserStatsData \<Rightarrow> UserEntry list" where
  "userAchievementsOf userStats =
     (case userStats of Some (Some achievements) \<Rightarrow> achievements | _ \<Rightarrow> [])"

definition globalAchievementsOf :: "GlobalStatsData \<Rightarrow> GlobalEntry list" where
  "globalAchievementsOf globalStats =
     (case globalStats of Some (Some achievements) \<Rightarrow> achievements | _ \<Rightarrow> [])"

definition schemaAchievementsOf :: "SchemaData \<Rightarrow> SchemaEntry list" where
  "schemaAchievementsOf schema =
     (case schema of Some (Some (Some achievements)) \<Rightarrow> achievements | _ \<Rightarrow> [])"

text \<open>
  \<open>makeRequest\<close> either returns the reply's body or throws; a fetch is its result,
  \<open>Inl\<close> the error thrown. \<open>Promise.all\<close> rejects as soon as one of the three rejects,
  the \<open>catch\<close> logs a warning and returns the empty list.
\<close>

definition getGameAchievements ::
  "'e + UserStatsData \<Rightarrow> 'e + GlobalStatsData \<Rightarrow> 'e + SchemaData \<Rightarrow> Achievement list" where
  "getGameAchievements userStats globalStats schema =
     (case userStats of
        Inl error \<Rightarrow> []
      | Inr u \<Rightarrow>
          (case globalStats of
             Inl error \<Rightarrow> []
           | Inr g \<Rightarrow>
               (case schema of
                  Inl error \<Rightarrow> []
                | Inr s \<Rightarrow>
                    transformAchievementsData (userAchievementsOf u)
                      (globalAchievementsOf g) (schemaAchievementsOf s))))"

section \<open>The achievements route: the summary\<close>








section \<open>SteamService.getUserGames and transformGameData\<close>

record SteamGame =
  appid :: int
  sg_name :: string
  playtime_forever :: int
  playtime_2weeks :: "int option"
  img_icon_url :: string
  has_community_visible_stats :: bool
  rtime_last_played :: "int option"

text \<open>
  \<open>new Date(ms)\<close>: a timestamp, in milliseconds since the epoch, or an Invalid Date when
  the time value is beyond 8.64e15 milliseconds on either side of it.
\<close>

datatype Date = Date int | InvalidDate

definition newDate :: "int \<Rightarrow> Date" where
  "newDate ms = (if \<bar>ms\<bar> \<le> 8640000000000000 then Date ms else InvalidDate)"

record Game =
  appId :: int
  game_name :: string
  playtime_total :: int
  playtime_twoWeeks :: "int option"
  iconUrl :: string
  coverUrl :: string
  hasCommunityVisibleStats :: bool
  lastPlayed :: "Date option"

text \<open>An integer inside a template string: its decimal digits.\<close>

function digits_of :: "nat \<Rightarrow> string" where
  "digits_of n =
     (if n < 10 then [''0123456789'' ! n]
      else digits_of (n div 10) @ [''0123456789'' ! (n mod 10)])"
  by pat_completeness auto
termination
  by (relation "measure id") auto

definition numberToString :: "int \<Rightarrow> string" where
  "numberToString i =
     (if i < 0 then CHR ''-'' # digits_of (nat (- i)) else digits_of (nat i))"

text \<open>
  \<open>x != null\<close> is false for \<open>null\<close> and for \<open>undefined\<close> only: both are \<open>None\<close>. The
  upstream value is a whole number of seconds; its product with 1000 is exact wherever
  the time value is in the range of \<open>Date\<close>, and out of that range where it is inexact.
\<close>

definition transformGameData :: "SteamGame \<Rightarrow> Game" where
  "transformGameData game =
     \<lparr> appId = appid game,
       game_name = sg_name game,
       playtime_total = playtime_forever game,
       playtime_twoWeeks = playtime_2weeks game,
       iconUrl = ''http://media.steampowered.com/steamcommunity/public/images/apps/''
                 @ numberToString (appid game) @ ''/'' @ img_icon_url game @ ''.jpg'',
       coverUrl = ''https://cdn.akamai.steamstatic.com/steam/apps/''
                  @ numberToString (appid game) @ ''/library_600x900.jpg'',
       hasCommunityVisibleStats = has_community_visible_stats game,
       lastPlayed =
         (case rtime_last_played game of
            Some t \<Rightarrow> Some (newDate (t * 1000))
          | None \<Rightarrow> None) \<rparr>"

text \<open>
  The owned-games reply is \<open>{ response: { games?: SteamGame[] } }\<close>;
  \<open>data.response?.games || []\<close> reads it. A failed fetch is rethrown to the caller. The
  \<open>safeParse\<close> of the transformed games only logs a warning.
\<close>

type_synonym OwnedGamesData = "SteamGame list option option"

definition getUserGames :: "'e + OwnedGamesData \<Rightarrow> 'e + Game list" where
  "getUserGames fetched =
     (case fetched of
        Inl error \<Rightarrow> Inl error
      | Inr data \<Rightarrow>
          (let games = (case data of Some (Some gs) \<Rightarrow> gs | _ \<Rightarrow> [])
           in Inr (map transformGameData games)))"

section \<open>The rateLimit middleware\<close>

record RateLimitConfig =
  windowMs :: int
  maxRequests :: int
  message :: "string option"

record ClientData =
  count :: int
  resetTime :: int

text \<open>\<open>requestStore\<close>, the module's \<open>Map<string, { count; resetTime }>\<close>.\<close>

type_synonym RequestStore = "string \<rightharpoonup> ClientData"

record Request =
  ip :: "string option"
  remoteAddress :: "string option"

text \<open>
  What the middleware does with the request: \<open>next()\<close>, with the three
  \<open>X-RateLimit-*\<close> headers when it set them (their numbers, before \<open>toString\<close>), or
  the 429 reply with the arguments of \<open>ResponseBuilder.error\<close>: code, message and the
  \<open>retryAfter\<close> detail.
\<close>

record RateLimitHeaders =
  limit :: int
  remaining :: int
  reset :: int

datatype Outcome =
    Next "RateLimitHeaders option"
  | Status429 string string int

fun admitted :: "Outcome \<Rightarrow> bool" where
  "admitted (Next headers) = True"
| "admitted (Status429 code msg retryAfter) = False"

text \<open>\<open>req.ip || req.socket.remoteAddress\<close>: an empty string is falsy.\<close>

definition clientKey :: "Request \<Rightarrow> string option" where
  "clientKey req =
     (case ip req of
        Some s \<Rightarrow> if s \<noteq> [] then Some s else remoteAddress req
      | None \<Rightarrow> remoteAddress req)"

text \<open>The loop that deletes every entry whose \<open>resetTime\<close> is before \<open>windowStart\<close>.\<close>

definition purge :: "int \<Rightarrow> RequestStore \<Rightarrow> RequestStore" where
  "purge windowStart store =
     (\<lambda>ip. case store ip of
              None \<Rightarrow> None
            | Some data \<Rightarrow> if resetTime data < windowStart then None else Some data)"

text \<open>\<open>Math.ceil(ms / 1000)\<close>\<close>

definition ceilSeconds :: "int \<Rightarrow> int" where
  "ceilSeconds ms = \<lceil>real_of_int ms / 1000\<rceil>"

text \<open>
  One run of the middleware at time \<open>now\<close> (\<open>Date.now()\<close>) on the store, returning the
  outcome and the store it leaves. When the store holds an entry for the key,
  \<open>clientData\<close> is that stored object, so \<open>clientData.count++\<close> changes the store even
  when the request is then rejected; a fresh \<open>{ count: 0, resetTime: now }\<close> reaches the
  store only through \<open>requestStore.set\<close>.
\<close>

definition rateLimit ::
  "RateLimitConfig \<Rightarrow> Request \<Rightarrow> int \<Rightarrow> RequestStore \<Rightarrow> Outcome \<times> RequestStore" where
  "rateLimit config req now requestStore =
     (case clientKey req of
        None \<Rightarrow> (Next None, requestStore)
      | Some key \<Rightarrow>
          if key = [] then (Next None, requestStore)
          else
            (let windowStart = now - windowMs config;
                 purged = purge windowStart requestStore;
                 stored = purged key;
                 found = (case stored of
                            Some data \<Rightarrow> data
                          | None \<Rightarrow> \<lparr>count = 0, resetTime = now\<rparr>);
                 restarted = (if resetTime found < windowStart
                              then found\<lparr>count := 0, resetTime := now\<rparr>
                              else found);
                 clientData = restarted\<lparr>count := count restarted + 1\<rparr>;
                 aliased = (case stored of
                              Some data \<Rightarrow> purged(key \<mapsto> clientData)
                            | None \<Rightarrow> purged)
             in if count clientData > maxRequests config
                then (Status429 ''RATE_LIMIT_EXCEEDED''
                        (case message config of
                           Some m \<Rightarrow> if m \<noteq> [] then m else ''Too many request''
                         | None \<Rightarrow> ''Too many request'')
                        (ceilSeconds (resetTime clientData + windowMs config - now)),
                      aliased)
                else (Next (Some \<lparr> limit = maxRequests config,
                                   remaining = maxRequests config - count clientData,
                                   reset = ceilSeconds (resetTime clientData + windowMs config) \<rparr>),
                      aliased(key \<mapsto> clientData))))"

text \<open>Successive checks of one client, at the given times, each on the store the last left.\<close>

fun checks ::
  "RateLimitConfig \<Rightarrow> Request \<Rightarrow> int list \<Rightarrow> RequestStore \<Rightarrow> Outcome list \<times> RequestStore" where
  "checks config req [] store = ([], store)"
| "checks config req (now # later) store =
     (let (outcome, store') = rateLimit config req now store;
          (outcomes, store'') = checks config req later store'
      in (outcome # outcomes, store''))"

section \<open>Concrete inputs\<close>

text \<open>
  The merge scenario: the schema lists A, B and C; the global statistics report A at 10
  and C at 5; the user statistics report B achieved, unlocked at 1700000000.
\<close>

definition schemaEntry :: "string \<Rightarrow> SchemaEntry" where
  "schemaEntry n =
     \<lparr> s_name = JStr n, s_displayName = JStr n, s_description = JStr ''about'',
       s_icon = JStr ''icon.jpg'', s_icongray = JStr ''gray.jpg'', s_hidden = JNum 0 \<rparr>"

definition scenario_schema :: "SchemaEntry list" where
  "scenario_schema = [schemaEntry ''A'', schemaEntry ''B'', schemaEntry ''C'']"

definition scenario_global :: "GlobalEntry list" where
  "scenario_global =
     [\<lparr>g_name = JStr ''A'', g_percent = JNum 10\<rparr>, \<lparr>g_name = JStr ''C'', g_percent = JNum 5\<rparr>]"

definition scenario_user :: "UserEntry list" where
  "scenario_user =
     [\<lparr>u_apiname = JStr ''B'', u_achieved = JNum 1, u_unlocktime = JNum 1700000000\<rparr>]"

text \<open>A user entry that is not achieved and still carries an unlock time.\<close>

definition locked_with_time :: "UserEntry list" where
  "locked_with_time =
     [\<lparr>u_apiname = JStr ''A'', u_achieved = JNum 0, u_unlocktime = JNum 1700000000\<rparr>]"

text \<open>Two user entries for one key: achieved first, not achieved after.\<close>

definition achieved_then_locked :: "UserEntry list" where
  "achieved_then_locked =
     [\<lparr>u_apiname = JStr ''A'', u_achieved = JNum 1, u_unlocktime = JNum 1700000000\<rparr>,
      \<lparr>u_apiname = JStr ''A'', u_achieved = JNum 0, u_unlocktime = JNum 0\<rparr>]"

text \<open>Two global entries for one key, with different percentages.\<close>

definition repeated_global :: "GlobalEntry list" where
  "repeated_global =
     [\<lparr>g_name = JStr ''A'', g_percent = JNum 1\<rparr>, \<lparr>g_name = JStr ''A'', g_percent = JNum 2\<rparr>]"





text \<open>The limiter of the owned-games route, \<open>rateLimit({ windowMs: 60000, maxRequests: 10 })\<close>.\<close>

definition gamesLimit :: RateLimitConfig where
  "gamesLimit = \<lparr>windowMs = 60000, maxRequests = 10, message = None\<rparr>"

definition smallLimit :: RateLimitConfig where
  "smallLimit = \<lparr>windowMs = 60000, maxRequests = 2, message = None\<rparr>"

definition noQuota :: RateLimitConfig where
  "noQuota = \<lparr>windowMs = 60000, maxRequests = 0, message = None\<rparr>"

definition client :: Request where
  "client = \<lparr>ip = Some ''10.0.0.1'', remoteAddress = None\<rparr>"

definition anonymous :: Request where
  "anonymous = \<lparr>ip = None, remoteAddress = None\<rparr>"

text \<open>A store whose entry for the client has used the whole quota of a window opened at 0.\<close>

definition usedUp :: RequestStore where
  "usedUp = [''10.0.0.1'' \<mapsto> \<lparr>count = 10, resetTime = 0\<rparr>]"

text \<open>A game Steam reports as never played: \<open>rtime_last_played: 0\<close>.\<close>

definition never_played :: SteamGame where
  "never_played =
     \<lparr> appid = 570, sg_name = ''Dota 2'', playtime_forever = 0, playtime_2weeks = None,
       img_icon_url = ''0bbb630d63262dd66d2fdd0f7d37e8661a410075'',
       has_community_visible_stats = True, rtime_last_played = Some 0 \<rparr>"

section \<open>The map underneath\<close>

lemma map_of_map_set: "map_of (map_set k v m) = (map_of m)(k \<mapsto> v)"
  by (induction m) auto

lemma keys_map_set:
  "map fst (map_set k v m) = (if k \<in> fst ` set m then map fst m else map fst m @ [k])"
  by (induction m) force+

lemma map_of_map_mutate:
  "map_of (map_mutate k f m) = (\<lambda>x. if x = k then map_option f (map_of m k) else map_of m x)"
  by (induction m) (auto simp: fun_eq_iff)

lemma keys_map_mutate: "map fst (map_mutate k f m) = map fst m"
  by (induction m) auto

lemma map_mutate_commute:
  assumes "\<And>v. f (g v) = g (f v)"
  shows "map_mutate k f (map_mutate k' g m) = map_mutate k' g (map_mutate k f m)"
  using assms by (induction m) auto

lemma map_mutate_absent: "map_of m k = None \<Longrightarrow> map_mutate k f m = m"
  by (induction m) (auto split: if_splits)

lemma globalStep_eq:
  "globalStep g m = map_mutate (g_name g) (\<lambda>a. a\<lparr>globalPercentage := g_percent g\<rparr>) m"
  by (simp add: globalStep_def map_get_def map_mutate_absent split: option.splits)

lemma userStep_eq:
  "userStep u m = map_mutate (u_apiname u)
     (\<lambda>a. a\<lparr>unlocked := (u_achieved u = JNum 1), unlockTime := or_undefined (u_unlocktime u)\<rparr>) m"
  by (simp add: userStep_def map_get_def map_mutate_absent split: option.splits)

lemma globalStep_userStep_commute:
  "globalStep g (userStep u m) = userStep u (globalStep g m)"
  unfolding globalStep_eq userStep_eq by (rule map_mutate_commute) simp

lemma fold_globalStep_userStep:
  "fold globalStep gs (userStep u m) = userStep u (fold globalStep gs m)"
  by (induction gs arbitrary: m) (simp_all add: globalStep_userStep_commute)

lemma fold_overlays_commute:
  "fold globalStep gs (fold userStep us m) = fold userStep us (fold globalStep gs m)"
  by (induction us arbitrary: m) (simp_all add: fold_globalStep_userStep)

lemma keys_globalStep: "map fst (globalStep g m) = map fst m"
  by (simp add: globalStep_eq keys_map_mutate)
lemma keys_userStep: "map fst (userStep u m) = map fst m"
  by (simp add: userStep_eq keys_map_mutate)
lemma keys_fold_globalStep: "map fst (fold globalStep gs m) = map fst m"
  by (induction gs arbitrary: m) (simp_all add: keys_globalStep)
lemma keys_fold_userStep: "map fst (fold userStep us m) = map fst m"
  by (induction us arbitrary: m) (simp_all add: keys_userStep)

lemma keyset_fold_schemaStep:
  "fst ` set (fold schemaStep schema m) = fst ` set m \<union> s_name ` set schema"
proof (induction schema arbitrary: m)
  case Nil show ?case by simp
next
  case (Cons s schema)
  have "fst ` set (schemaStep s m) = insert (s_name s) (fst ` set m)"
    using keys_map_set[of "s_name s" "schemaRecord s" m, THEN arg_cong, of set]
    by (auto simp: schemaStep_def split: if_splits)
  then show ?case using Cons.IH[of "schemaStep s m"] by auto
qed

lemma distinct_map_set: "distinct (map fst m) \<Longrightarrow> distinct (map fst (map_set k v m))"
  by (simp add: keys_map_set)

lemma distinct_fold_schemaStep:
  "distinct (map fst m) \<Longrightarrow> distinct (map fst (fold schemaStep schema m))"
  by (induction schema arbitrary: m) (simp_all add: schemaStep_def distinct_map_set)

lemma keyed_map_set: "keyed m \<Longrightarrow> apiName v = k \<Longrightarrow> keyed (map_set k v m)"
  unfolding keyed_def by (induction m) auto

lemma keyed_map_mutate:
  "keyed m \<Longrightarrow> (\<And>a. apiName (f a) = apiName a) \<Longrightarrow> keyed (map_mutate k f m)"
  unfolding keyed_def by (induction m) auto

lemma keyed_fold_schemaStep: "keyed m \<Longrightarrow> keyed (fold schemaStep schema m)"
  by (induction schema arbitrary: m) (simp_all add: schemaStep_def keyed_map_set schemaRecord_def)

lemma keyed_fold_globalStep: "keyed m \<Longrightarrow> keyed (fold globalStep gs m)"
  by (induction gs arbitrary: m) (simp_all add: globalStep_eq keyed_map_mutate)

lemma keyed_fold_userStep: "keyed m \<Longrightarrow> keyed (fold userStep us m)"
  by (induction us arbitrary: m) (simp_all add: userStep_eq keyed_map_mutate)

lemma keyed_apiNames: "keyed m \<Longrightarrow> map apiName (map_values m) = map fst m"
  unfolding keyed_def map_values_def by (induction m) auto

lemma keyed_find: "keyed m \<Longrightarrow> find (\<lambda>a. apiName a = k) (map_values m) = map_of m k"
  unfolding keyed_def map_values_def by (induction m) auto

lemma keyed_merge:
  "keyed (fold userStep us (fold globalStep gs (fold schemaStep schema [])))"
  by (intro keyed_fold_userStep keyed_fold_globalStep keyed_fold_schemaStep) (simp add: keyed_def)

lemma apiNames_transform:
  "map apiName (transformAchievementsData us gs schema) = map fst (fold schemaStep schema [])"
  by (simp add: transformAchievementsData_def keyed_apiNames[OF keyed_merge]
      keys_fold_userStep keys_fold_globalStep)


section \<open>What the merged map holds under a key\<close>

lemma map_of_globalStep:
  "map_of (globalStep g m) k =
     (if k = g_name g then map_option (\<lambda>a. a\<lparr>globalPercentage := g_percent g\<rparr>) (map_of m k)
      else map_of m k)"
  by (simp add: globalStep_eq map_of_map_mutate)

lemma map_of_userStep:
  "map_of (userStep u m) k =
     (if k = u_apiname u
      then map_option (\<lambda>a. a\<lparr>unlocked := (u_achieved u = JNum 1),
                              unlockTime := or_undefined (u_unlocktime u)\<rparr>) (map_of m k)
      else map_of m k)"
  by (simp add: userStep_eq map_of_map_mutate)

lemma map_of_schemaStep:
  "map_of (schemaStep s m) k = (if k = s_name s then Some (schemaRecord s) else map_of m k)"
  by (simp add: schemaStep_def map_of_map_set)

lemma map_of_fold_schemaStep:
  "map_of (fold schemaStep schema m) k =
     (if k \<in> s_name ` set schema
      then Some (schemaRecord (last (filter (\<lambda>s. s_name s = k) schema)))
      else map_of m k)"
proof (induction schema arbitrary: k rule: rev_induct)
  case Nil show ?case by simp
next
  case (snoc s schema)
  show ?case by (auto simp: snoc.IH map_of_schemaStep)
qed

lemma map_of_fold_globalStep:
  "map_of (fold globalStep gs m) k =
     (if k \<in> g_name ` set gs
      then map_option (\<lambda>a. a\<lparr>globalPercentage := g_percent (last (filter (\<lambda>g. g_name g = k) gs))\<rparr>)
             (map_of m k)
      else map_of m k)"
proof (induction gs arbitrary: k rule: rev_induct)
  case Nil show ?case by simp
next
  case (snoc g gs)
  show ?case by (auto simp: snoc.IH map_of_globalStep option.map_comp comp_def)
qed

lemma map_of_fold_userStep:
  "map_of (fold userStep us m) k =
     (if k \<in> u_apiname ` set us
      then map_option (\<lambda>a. a\<lparr>unlocked := (u_achieved (last (filter (\<lambda>u. u_apiname u = k) us)) = JNum 1),
                              unlockTime := or_undefined (u_unlocktime (last (filter (\<lambda>u. u_apiname u = k) us)))\<rparr>)
             (map_of m k)
      else map_of m k)"
proof (induction us arbitrary: k rule: rev_induct)
  case Nil show ?case by simp
next
  case (snoc u us)
  show ?case by (auto simp: snoc.IH map_of_userStep option.map_comp comp_def)
qed

lemma recordOf_transform:
  "recordOf k (transformAchievementsData us gs schema) =
     map_of (fold userStep us (fold globalStep gs (fold schemaStep schema []))) k"
  by (simp add: recordOf_def transformAchievementsData_def keyed_find[OF keyed_merge])

lemma or_undefined_set: "or_undefined x \<noteq> JUndefined \<longleftrightarrow> truthy x"
  by (cases x) (simp_all add: or_undefined_def)


section \<open>Steps of the rate limiter\<close>

lemma rateLimit_no_key:
  "clientKey req = None \<or> clientKey req = Some [] \<Longrightarrow>
   rateLimit config req now requestStore = (Next None, requestStore)"
  by (auto simp: rateLimit_def)

lemma rateLimit_fresh:
  assumes "clientKey req = Some key" "key \<noteq> []"
    and "requestStore key = None \<or>
         (\<exists>d. requestStore key = Some d \<and> windowMs config < now - resetTime d)"
  shows "admitted (fst (rateLimit config req now requestStore)) \<longleftrightarrow> 1 \<le> maxRequests config"
    and "1 \<le> maxRequests config \<Longrightarrow>
         snd (rateLimit config req now requestStore) key = Some \<lparr>count = 1, resetTime = now\<rparr>"
  using assms by (auto simp: rateLimit_def Let_def purge_def)

lemma rateLimit_counting:
  assumes "clientKey req = Some key" "key \<noteq> []"
    and "requestStore key = Some d" "now - resetTime d \<le> windowMs config"
  shows "admitted (fst (rateLimit config req now requestStore)) \<longleftrightarrow>
           count d + 1 \<le> maxRequests config"
    and "snd (rateLimit config req now requestStore) key = Some (d\<lparr>count := count d + 1\<rparr>)"
  using assms by (auto simp: rateLimit_def Let_def purge_def)

lemma rateLimit_other_client:
  assumes "clientKey other \<noteq> Some key"
    and "requestStore key = Some d" "now - resetTime d \<le> windowMs config"
  shows "snd (rateLimit config other now requestStore) key = Some d"
  using assms by (auto simp: rateLimit_def Let_def purge_def split: option.splits)

lemma checks_counting:
  assumes "clientKey req = Some key" "key \<noteq> []"
  shows "store key = Some d \<Longrightarrow> \<forall>t\<in>set ts. t - resetTime d \<le> windowMs config \<Longrightarrow>
     length (fst (checks config req ts store)) = length ts \<and>
     (\<forall>i<length ts. admitted (fst (checks config req ts store) ! i) \<longleftrightarrow>
        count d + 1 + int i \<le> maxRequests config) \<and>
     snd (checks config req ts store) key = Some (d\<lparr>count := count d + int (length ts)\<rparr>)"
proof (induction ts arbitrary: d store)
  case Nil
  then show ?case by simp
next
  case (Cons t ts)
  obtain out store' where step: "rateLimit config req t store = (out, store')"
    by (cases "rateLimit config req t store")
  have t: "t - resetTime d \<le> windowMs config" using Cons.prems by simp
  have out: "admitted out \<longleftrightarrow> count d + 1 \<le> maxRequests config"
    using rateLimit_counting(1)[where requestStore=store and now=t, OF assms Cons.prems(1) t] step by simp
  have st: "store' key = Some (d\<lparr>count := count d + 1\<rparr>)"
    using rateLimit_counting(2)[where requestStore=store and now=t, OF assms Cons.prems(1) t] step by simp
  have "\<forall>t\<in>set ts. t - resetTime (d\<lparr>count := count d + 1\<rparr>) \<le> windowMs config"
    using Cons.prems by simp
  note IH = Cons.IH[where store=store', OF st this]
  obtain outs store'' where rest: "checks config req ts store' = (outs, store'')"
    by (cases "checks config req ts store'")
  have all: "checks config req (t # ts) store = (out # outs, store'')"
    by (simp add: step rest)
  show ?case
  proof (intro conjI allI impI)
    show "length (fst (checks config req (t # ts) store)) = length (t # ts)"
      unfolding all using IH rest by simp
    show "snd (checks config req (t # ts) store) key =
          Some (d\<lparr>count := count d + int (length (t # ts))\<rparr>)"
      unfolding all using IH rest by simp
  next
    fix i assume "i < length (t # ts)"
    then show "admitted (fst (checks config req (t # ts) store) ! i) \<longleftrightarrow>
               count d + 1 + int i \<le> maxRequests config"
      unfolding all using IH rest out by (cases i) auto
  qed
qed

lemma checks_window:
  assumes key: "clientKey req = Some key" "key \<noteq> []"
    and fresh: "requestStore key = None \<or>
         (\<exists>d. requestStore key = Some d \<and> windowMs config < t0 - resetTime d)"
    and N: "1 \<le> maxRequests config"
    and within: "\<forall>t\<in>set ts. t - t0 \<le> windowMs config"
  shows "length (fst (checks config req (t0 # ts) requestStore)) = Suc (length ts)"
    and "\<forall>i\<le>length ts. admitted (fst (checks config req (t0 # ts) requestStore) ! i) \<longleftrightarrow>
           int i < maxRequests config"
    and "snd (checks config req (t0 # ts) requestStore) key =
           Some \<lparr>count = 1 + int (length ts), resetTime = t0\<rparr>"
proof -
  obtain out store' where step: "rateLimit config req t0 requestStore = (out, store')"
    by (cases "rateLimit config req t0 requestStore")
  have out: "admitted out"
    using rateLimit_fresh(1)[where requestStore=requestStore and now=t0, OF key fresh] N step by simp
  have st: "store' key = Some \<lparr>count = 1, resetTime = t0\<rparr>"
    using rateLimit_fresh(2)[where requestStore=requestStore and now=t0, OF key fresh N] step by simp
  have "\<forall>t\<in>set ts. t - resetTime \<lparr>count = 1, resetTime = t0\<rparr> \<le> windowMs config"
    using within by simp
  note C = checks_counting[where store=store', OF key st this]
  obtain outs store'' where rest: "checks config req ts store' = (outs, store'')"
    by (cases "checks config req ts store'")
  have all: "checks config req (t0 # ts) requestStore = (out # outs, store'')"
    by (simp add: step rest)
  show "length (fst (checks config req (t0 # ts) requestStore)) = Suc (length ts)"
    unfolding all using C rest by simp
  show "snd (checks config req (t0 # ts) requestStore) key =
           Some \<lparr>count = 1 + int (length ts), resetTime = t0\<rparr>"
    unfolding all using C rest by simp
  show "\<forall>i\<le>length ts. admitted (fst (checks config req (t0 # ts) requestStore) ! i) \<longleftrightarrow>
           int i < maxRequests config"
  proof (intro allI impI)
    fix i assume "i \<le> length ts"
    then show "admitted (fst (checks config req (t0 # ts) requestStore) ! i) \<longleftrightarrow>
           int i < maxRequests config"
      unfolding all using C rest out N by (cases i) auto
  qed
qed

section \<open>The merge on the scenario\<close>

lemmas merge_defs = transformAchievementsData_def schemaStep_def globalStep_def userStep_def
  map_get_def map_values_def schemaRecord_def or_undefined_def recordOf_def

lemma scenario_merge:
  "transformAchievementsData scenario_user scenario_global scenario_schema =
     [\<lparr>apiName = JStr ''A'', name = JStr ''A'', description = JStr ''about'',
        icon_default = JStr ''icon.jpg'', icon_achieved = JStr ''gray.jpg'',
        globalPercentage = JNum 10, unlocked = False, unlockTime = JUndefined,
        platform = ''steam'', hidden = False\<rparr>,
      \<lparr>apiName = JStr ''B'', name = JStr ''B'', description = JStr ''about'',
        icon_default = JStr ''icon.jpg'', icon_achieved = JStr ''gray.jpg'',
        globalPercentage = JNum 0, unlocked = True, unlockTime = JNum 1700000000,
        platform = ''steam'', hidden = False\<rparr>,
      \<lparr>apiName = JStr ''C'', name = JStr ''C'', description = JStr ''about'',
        icon_default = JStr ''icon.jpg'', icon_achieved = JStr ''gray.jpg'',
        globalPercentage = JNum 5, unlocked = False, unlockTime = JUndefined,
        platform = ''steam'', hidden = False\<rparr>]"
  by (simp add: merge_defs scenario_user_def scenario_global_def scenario_schema_def schemaEntry_def)

lemma apiNames_distinct:
  "distinct (map apiName (transformAchievementsData userAchievements globalStats schema))"
  by (simp add: apiNames_transform distinct_fold_schemaStep)

section \<open>The achievement merge\<close>

text \<open>
  C1. For every three input lists, the \<open>apiName\<close>s of the merged list are exactly the
  names of the schema entries: every schema name appears, and no record carries a name
  the schema lacks, whatever the global and the user statistics hold.
\<close>

theorem merge_keys_are_schema_keys:
  "set (map apiName (transformAchievementsData userAchievements globalStats schema)) =
   set (map s_name schema)"
  using keyset_fold_schemaStep[of schema "[]"] by (simp add: apiNames_transform)

text \<open>
  C2, as the code has it. For every key \<open>k\<close> of the schema the merged list has a record
  for \<open>k\<close> (by \<open>apiNames_distinct\<close>, the only one). Its \<open>unlocked\<close> is true exactly when
  the user statistics have an entry for \<open>k\<close> and that entry (the last one for \<open>k\<close>, where
  the list repeats a key: later entries overwrite) has \<open>achieved === 1\<close>. Its
  \<open>unlockTime\<close> is set exactly when the user statistics have an entry for \<open>k\<close> and that
  entry's \<open>unlocktime\<close> is truthy (present and not zero), whether or not \<open>unlocked\<close> is
  true.
\<close>

theorem unlock_fields_follow_user_entry:
  assumes "k \<in> s_name ` set schema"
  shows "\<exists>a. recordOf k (transformAchievementsData userAchievements globalStats schema) = Some a \<and>
           (unlocked a \<longleftrightarrow>
              k \<in> u_apiname ` set userAchievements \<and>
              u_achieved (last (filter (\<lambda>u. u_apiname u = k) userAchievements)) = JNum 1) \<and>
           (unlockTime a \<noteq> JUndefined \<longleftrightarrow>
              k \<in> u_apiname ` set userAchievements \<and>
              truthy (u_unlocktime (last (filter (\<lambda>u. u_apiname u = k) userAchievements))))"
  using assms
  by (simp add: recordOf_transform map_of_fold_userStep map_of_fold_globalStep
      map_of_fold_schemaStep schemaRecord_def or_undefined_set)

text \<open>
  The scenario's B: achieved with an unlock time, so unlocked with \<open>unlockTime\<close> set.
\<close>

theorem unlock_fields_witness:
  "JStr ''B'' \<in> s_name ` set scenario_schema \<and>
   (\<exists>a. recordOf (JStr ''B'')
          (transformAchievementsData scenario_user scenario_global scenario_schema) = Some a \<and>
        unlocked a \<and> unlockTime a \<noteq> JUndefined)"
proof -
  have h: "JStr ''B'' \<in> s_name ` set scenario_schema"
    by (simp add: scenario_schema_def schemaEntry_def)
  from unlock_fields_follow_user_entry[OF h, of scenario_user scenario_global]
  obtain a where
    "recordOf (JStr ''B'')
       (transformAchievementsData scenario_user scenario_global scenario_schema) = Some a"
    "unlocked a \<longleftrightarrow>
       JStr ''B'' \<in> u_apiname ` set scenario_user \<and>
       u_achieved (last (filter (\<lambda>u. u_apiname u = JStr ''B'') scenario_user)) = JNum 1"
    "unlockTime a \<noteq> JUndefined \<longleftrightarrow>
       JStr ''B'' \<in> u_apiname ` set scenario_user \<and>
       truthy (u_unlocktime (last (filter (\<lambda>u. u_apiname u = JStr ''B'') scenario_user)))"
    by blast
  then show ?thesis using h by (auto simp: scenario_user_def)
qed

text \<open>
  C2 as stated asks for \<open>unlockTime\<close> to be set only when \<open>unlocked\<close> is true. The merge
  copies a non-zero \<open>unlocktime\<close> from an entry that is not achieved: here \<open>unlocked\<close> is
  false and \<open>unlockTime\<close> is 1700000000. And where the user statistics repeat a key, an
  achieved entry that a later entry for the key overwrites leaves \<open>unlocked\<close> false.
\<close>

theorem unlockTime_without_unlocked:
  "map apiName (transformAchievementsData locked_with_time [] [schemaEntry ''A'']) = [JStr ''A''] \<and>
   map unlocked (transformAchievementsData locked_with_time [] [schemaEntry ''A'']) = [False] \<and>
   map unlockTime (transformAchievementsData locked_with_time [] [schemaEntry ''A'']) =
     [JNum 1700000000] \<and>
   \<lparr>u_apiname = JStr ''A'', u_achieved = JNum 1, u_unlocktime = JNum 1700000000\<rparr>
     \<in> set achieved_then_locked \<and>
   map unlocked (transformAchievementsData achieved_then_locked [] [schemaEntry ''A'']) = [False]"
  by (simp add: merge_defs locked_with_time_def achieved_then_locked_def schemaEntry_def)

text \<open>
  C7, as the code has it. For every key \<open>k\<close> of the schema, the record of \<open>k\<close> has
  \<open>globalPercentage\<close> 0 when the global statistics have no entry for \<open>k\<close>, and otherwise
  the \<open>percent\<close> of the last entry for \<open>k\<close> in the list: each entry for the key
  overwrites what an earlier one set.
\<close>

theorem globalPercentage_follows_global_entry:
  assumes "k \<in> s_name ` set schema"
  shows "\<exists>a. recordOf k (transformAchievementsData userAchievements globalStats schema) = Some a \<and>
           (k \<notin> g_name ` set globalStats \<longrightarrow> globalPercentage a = JNum 0) \<and>
           (k \<in> g_name ` set globalStats \<longrightarrow>
              globalPercentage a =
                g_percent (last (filter (\<lambda>g. g_name g = k) globalStats)))"
  using assms
  by (simp add: recordOf_transform map_of_fold_userStep map_of_fold_globalStep
      map_of_fold_schemaStep schemaRecord_def)

text \<open>
  The scenario's A (reported at 10) and B (not reported).
\<close>

theorem globalPercentage_witness:
  "JStr ''A'' \<in> s_name ` set scenario_schema \<and> JStr ''B'' \<in> s_name ` set scenario_schema \<and>
   (\<exists>a. recordOf (JStr ''A'')
          (transformAchievementsData scenario_user scenario_global scenario_schema) = Some a \<and>
        globalPercentage a = JNum 10) \<and>
   (\<exists>b. recordOf (JStr ''B'')
          (transformAchievementsData scenario_user scenario_global scenario_schema) = Some b \<and>
        globalPercentage b = JNum 0)"
proof -
  have hA: "JStr ''A'' \<in> s_name ` set scenario_schema"
    and hB: "JStr ''B'' \<in> s_name ` set scenario_schema"
    by (simp_all add: scenario_schema_def schemaEntry_def)
  from globalPercentage_follows_global_entry[OF hA, of scenario_user scenario_global]
  have A: "\<exists>a. recordOf (JStr ''A'')
          (transformAchievementsData scenario_user scenario_global scenario_schema) = Some a \<and>
        globalPercentage a = JNum 10"
    by (auto simp: scenario_global_def)
  from globalPercentage_follows_global_entry[OF hB, of scenario_user scenario_global]
  have B: "\<exists>b. recordOf (JStr ''B'')
          (transformAchievementsData scenario_user scenario_global scenario_schema) = Some b \<and>
        globalPercentage b = JNum 0"
    by (auto simp: scenario_global_def)
  show ?thesis using hA hB A B by blast
qed

text \<open>
  C7 as stated gives the record the \<open>percent\<close> of any entry the global statistics hold
  for the key. Where they hold two for one key, with 1 and then 2, the record has 2, not
  the 1 of the first.
\<close>

theorem globalPercentage_last_entry_wins:
  "\<lparr>g_name = JStr ''A'', g_percent = JNum 1\<rparr> \<in> set repeated_global \<and>
   map apiName (transformAchievementsData [] repeated_global [schemaEntry ''A'']) = [JStr ''A''] \<and>
   map globalPercentage (transformAchievementsData [] repeated_global [schemaEntry ''A'']) =
     [JNum 2]"
  by (simp add: merge_defs repeated_global_def schemaEntry_def)

text \<open>
  C8. Exchanging the global-percentage pass and the user-achievement pass gives the same
  list, record for record and field for field.
\<close>

theorem overlays_commute:
  "transformAchievementsData_swapped userAchievements globalStats schema =
   transformAchievementsData userAchievements globalStats schema"
  by (simp add: transformAchievementsData_swapped_def transformAchievementsData_def
      fold_overlays_commute)

section \<open>Fetch failures and missing fields\<close>

lemma getGameAchievements_all_fetched:
  "getGameAchievements (Inr u) (Inr g) (Inr s) =
     transformAchievementsData (userAchievementsOf u) (globalAchievementsOf g)
       (schemaAchievementsOf s)"
  by (simp add: getGameAchievements_def)

text \<open>
  C4. When any of the three fetches fails, \<open>getGameAchievements\<close> returns the empty
  list: the error is not propagated and nothing is merged from the fetches that
  succeeded.
\<close>

theorem failed_fetch_gives_empty_list:
  assumes "isl userStats \<or> isl globalStats \<or> isl schema"
  shows "getGameAchievements userStats globalStats schema = []"
  using assms by (auto simp: getGameAchievements_def isl_def split: sum.splits)

text \<open>
  The global percentages time out while the scenario's schema and user statistics
  arrive.
\<close>

theorem failed_fetch_witness:
  "isl (Inl ''timeout'' :: string + GlobalStatsData) \<and>
   getGameAchievements (Inr (Some (Some scenario_user))) (Inl ''timeout'')
     (Inr (Some (Some (Some scenario_schema)))) = []"
  using failed_fetch_gives_empty_list[of "Inr (Some (Some scenario_user))" "Inl ''timeout''"
      "Inr (Some (Some (Some scenario_schema)))"]
  by simp

text \<open>
  C10. A successful owned-games reply without \<open>response\<close>, or whose \<open>response\<close> has no
  \<open>games\<close>, gives the empty list of games, not an error.
\<close>

theorem missing_games_gives_empty_list:
  "getUserGames (Inr None) = Inr [] \<and> getUserGames (Inr (Some None)) = Inr []"
  by (simp add: getUserGames_def)

section \<open>The game transformer\<close>

lemma digits_570: "numberToString 570 = ''570''"
  by code_simp

lemma transform_never_played:
  "iconUrl (transformGameData never_played) = ''http://media.steampowered.com/steamcommunity/public/images/apps/570/0bbb630d63262dd66d2fdd0f7d37e8661a410075.jpg''"
  by (simp add: transformGameData_def never_played_def numberToString_def)

lemma lastPlayed_of_rtime:
  "lastPlayed (transformGameData game) =
     map_option (\<lambda>t. newDate (t * 1000)) (rtime_last_played game)"
  by (simp add: transformGameData_def split: option.splits)

text \<open>
  C5 asks that \<open>transformGameData\<close> produce no \<open>lastPlayed\<close> when the upstream
  \<open>rtime_last_played\<close> is absent or zero, never the epoch timestamp. The guard is
  \<open>!= null\<close>, which zero passes: for the game that was never played the code produces
  \<open>new Date(0)\<close>, the epoch timestamp.
\<close>

theorem lastPlayed_zero_is_epoch:
  "rtime_last_played never_played = Some 0 \<and>
   lastPlayed (transformGameData never_played) = Some (Date 0)"
  by (simp add: transformGameData_def never_played_def newDate_def)

section \<open>Rounding to binary64\<close>













section \<open>The achievements summary\<close>




section \<open>The rate limiter\<close>

lemmas limiter_defs = rateLimit_def clientKey_def purge_def ceilSeconds_def Let_def

text \<open>
  C3, as the code has it. For a check at time \<open>now\<close> of a client whose key is \<open>key\<close>,
  with window length \<open>windowMs\<close> and quota \<open>maxRequests\<close>:
  \<^item> when the store has no entry for the key, or the entry's window started more than
    \<open>windowMs\<close> ago (\<open>now - resetTime > windowMs\<close>, strictly), the check counts 1 in a
    fresh window: it admits exactly when the quota is at least 1, and then stores
    \<open>count = 1\<close> with the window starting at \<open>now\<close>;
  \<^item> otherwise (\<open>now - resetTime \<le> windowMs\<close>) it increments the stored count, keeps the
    window's start, and admits exactly when the incremented count is within the quota;
  \<^item> so, with a quota of at least 1, of any checks that follow a fresh one within
    \<open>windowMs\<close> of it, check number \<open>i + 1\<close> is admitted exactly when \<open>i + 1\<close> is within
    the quota (check number \<open>maxRequests + 1\<close> is rejected), and a check more than
    \<open>windowMs\<close> after the fresh one is admitted in a new window with \<open>count = 1\<close>.
\<close>

theorem rateLimit_fixed_window:
  assumes "clientKey req = Some key" and "key \<noteq> []"
  shows
    "((requestStore key = None \<or>
       (\<exists>d. requestStore key = Some d \<and> windowMs config < now - resetTime d)) \<longrightarrow>
        (admitted (fst (rateLimit config req now requestStore)) \<longleftrightarrow> 1 \<le> maxRequests config) \<and>
        (1 \<le> maxRequests config \<longrightarrow>
           snd (rateLimit config req now requestStore) key = Some \<lparr>count = 1, resetTime = now\<rparr>)) \<and>
     (\<forall>d. requestStore key = Some d \<and> now - resetTime d \<le> windowMs config \<longrightarrow>
        snd (rateLimit config req now requestStore) key = Some (d\<lparr>count := count d + 1\<rparr>) \<and>
        (admitted (fst (rateLimit config req now requestStore)) \<longleftrightarrow>
           count d + 1 \<le> maxRequests config)) \<and>
     (\<forall>ts t'.
        (requestStore key = None \<or>
         (\<exists>d. requestStore key = Some d \<and> windowMs config < now - resetTime d)) \<and>
        1 \<le> maxRequests config \<and> (\<forall>t\<in>set ts. t - now \<le> windowMs config) \<longrightarrow>
        (\<forall>i\<le>length ts.
           admitted (fst (checks config req (now # ts) requestStore) ! i) \<longleftrightarrow>
             int i < maxRequests config) \<and>
        (windowMs config < t' - now \<longrightarrow>
           admitted (fst (rateLimit config req t'
                       (snd (checks config req (now # ts) requestStore)))) \<and>
           snd (rateLimit config req t'
                  (snd (checks config req (now # ts) requestStore))) key =
             Some \<lparr>count = 1, resetTime = t'\<rparr>))"
proof (intro conjI allI impI)
  assume fresh: "requestStore key = None \<or>
       (\<exists>d. requestStore key = Some d \<and> windowMs config < now - resetTime d)"
  show "admitted (fst (rateLimit config req now requestStore)) \<longleftrightarrow> 1 \<le> maxRequests config"
    using assms fresh by (rule rateLimit_fresh(1))
  assume "1 \<le> maxRequests config"
  with assms fresh
  show "snd (rateLimit config req now requestStore) key = Some \<lparr>count = 1, resetTime = now\<rparr>"
    by (rule rateLimit_fresh(2))
next
  fix d assume d: "requestStore key = Some d \<and> now - resetTime d \<le> windowMs config"
  show "snd (rateLimit config req now requestStore) key = Some (d\<lparr>count := count d + 1\<rparr>)"
    using assms d by (auto intro: rateLimit_counting(2))
  show "admitted (fst (rateLimit config req now requestStore)) \<longleftrightarrow>
           count d + 1 \<le> maxRequests config"
    using assms d by (auto simp: rateLimit_counting(1)[where requestStore=requestStore and d=d])
next
  fix ts t' i
  assume h: "(requestStore key = None \<or>
         (\<exists>d. requestStore key = Some d \<and> windowMs config < now - resetTime d)) \<and>
        1 \<le> maxRequests config \<and> (\<forall>t\<in>set ts. t - now \<le> windowMs config)"
  assume "i \<le> length ts"
  then show "admitted (fst (checks config req (now # ts) requestStore) ! i) \<longleftrightarrow>
             int i < maxRequests config"
    using checks_window(2)[where requestStore=requestStore and ?t0.0=now and ts=ts, OF assms] h
    by blast
next
  fix ts t'
  assume h: "(requestStore key = None \<or>
         (\<exists>d. requestStore key = Some d \<and> windowMs config < now - resetTime d)) \<and>
        1 \<le> maxRequests config \<and> (\<forall>t\<in>set ts. t - now \<le> windowMs config)"
  assume late: "windowMs config < t' - now"
  let ?store = "snd (checks config req (now # ts) requestStore)"
  have st: "?store key = Some \<lparr>count = 1 + int (length ts), resetTime = now\<rparr>"
    using checks_window(3)[where requestStore=requestStore and ?t0.0=now and ts=ts, OF assms] h
    by blast
  have fresh: "?store key = None \<or>
       (\<exists>d. ?store key = Some d \<and> windowMs config < t' - resetTime d)"
    using st late by simp
  show "admitted (fst (rateLimit config req t' ?store))"
    using rateLimit_fresh(1)[where requestStore="?store" and now=t', OF assms fresh] h by simp
  show "snd (rateLimit config req t' ?store) key = Some \<lparr>count = 1, resetTime = t'\<rparr>"
    using rateLimit_fresh(2)[where requestStore="?store" and now=t', OF assms fresh] h by simp
qed

text \<open>
  Quota 2, window 60000: checks at 0, 1000 and 60000 are admitted, admitted and rejected;
  the check at 60001 opens a new window.
\<close>

theorem rateLimit_fixed_window_witness:
  "clientKey client = Some ''10.0.0.1'' \<and>
   admitted (fst (checks smallLimit client [0, 1000, 60000] Map.empty) ! 0) \<and>
   admitted (fst (checks smallLimit client [0, 1000, 60000] Map.empty) ! 1) \<and>
   \<not> admitted (fst (checks smallLimit client [0, 1000, 60000] Map.empty) ! 2) \<and>
   admitted (fst (rateLimit smallLimit client 60001
                    (snd (checks smallLimit client [0, 1000, 60000] Map.empty)))) \<and>
   snd (rateLimit smallLimit client 60001
          (snd (checks smallLimit client [0, 1000, 60000] Map.empty))) ''10.0.0.1'' =
     Some \<lparr>count = 1, resetTime = 60001\<rparr>"
proof -
  have k: "clientKey client = Some ''10.0.0.1''" and ne: "''10.0.0.1'' \<noteq> []"
    by (simp_all add: clientKey_def client_def)
  have pre: "(Map.empty ''10.0.0.1'' = None \<or>
         (\<exists>d. Map.empty ''10.0.0.1'' = Some d \<and> windowMs smallLimit < 0 - resetTime d)) \<and>
        1 \<le> maxRequests smallLimit \<and> (\<forall>t\<in>set [1000, 60000]. t - 0 \<le> windowMs smallLimit)"
    by (simp add: smallLimit_def)
  note W = rateLimit_fixed_window[OF k ne, of Map.empty smallLimit 0,
      THEN conjunct2, THEN conjunct2, rule_format, of "[1000, 60000]" 60001, OF pre]
  have a: "\<And>i. i \<le> 2 \<Longrightarrow>
           admitted (fst (checks smallLimit client [0, 1000, 60000] Map.empty) ! i) \<longleftrightarrow>
             int i < 2"
    using W[THEN conjunct1] by (simp add: smallLimit_def)
  have late: "windowMs smallLimit < 60001 - 0" by (simp add: smallLimit_def)
  note b = W[THEN conjunct2, rule_format, OF late]
  show ?thesis
  proof (intro conjI)
    show "clientKey client = Some ''10.0.0.1''" by (rule k)
    show "admitted (fst (checks smallLimit client [0, 1000, 60000] Map.empty) ! 0)"
      using a[of 0] by simp
    show "admitted (fst (checks smallLimit client [0, 1000, 60000] Map.empty) ! 1)"
      using a[of 1] by simp
    show "\<not> admitted (fst (checks smallLimit client [0, 1000, 60000] Map.empty) ! 2)"
      using a[of 2] by simp
    show "admitted (fst (rateLimit smallLimit client 60001
                    (snd (checks smallLimit client [0, 1000, 60000] Map.empty))))"
      using b by blast
    show "snd (rateLimit smallLimit client 60001
          (snd (checks smallLimit client [0, 1000, 60000] Map.empty))) ''10.0.0.1'' =
     Some \<lparr>count = 1, resetTime = 60001\<rparr>"
      using b by blast
  qed
qed

text \<open>
  C3 as stated starts a fresh window as soon as \<open>now - resetTime \<ge> windowMs\<close>, and
  admits in every fresh window. The comparison of the code is strict: with the quota of
  10 used up in a window opened at 0, the check at 60000 is still counted in that window
  and rejected. And with a quota of 0 the first check of a client is rejected, and leaves
  no entry.
\<close>

theorem window_boundary_still_counts:
  "clientKey client = Some ''10.0.0.1'' \<and>
   usedUp ''10.0.0.1'' = Some \<lparr>count = 10, resetTime = 0\<rparr> \<and>
   60000 - 0 \<ge> windowMs gamesLimit \<and>
   fst (rateLimit gamesLimit client 60000 usedUp) =
     Status429 ''RATE_LIMIT_EXCEEDED'' ''Too many request'' 0 \<and>
   snd (rateLimit gamesLimit client 60000 usedUp) ''10.0.0.1'' =
     Some \<lparr>count = 11, resetTime = 0\<rparr> \<and>
   fst (rateLimit noQuota client 0 Map.empty) =
     Status429 ''RATE_LIMIT_EXCEEDED'' ''Too many request'' 60 \<and>
   snd (rateLimit noQuota client 0 Map.empty) ''10.0.0.1'' = None"
  by (simp add: limiter_defs gamesLimit_def noQuota_def client_def usedUp_def)

text \<open>
  C9. When neither \<open>req.ip\<close> nor the socket's remote address is there, the middleware
  calls \<open>next()\<close> and leaves the store as it was: nothing is created, counted or purged.
\<close>

theorem no_key_leaves_store:
  assumes "ip req = None" and "remoteAddress req = None"
  shows "rateLimit config req now requestStore = (Next None, requestStore)"
  using assms by (simp add: rateLimit_def clientKey_def)

text \<open>
  A store with an entry that a check at 120000 would purge: it stays.
\<close>

theorem no_key_witness:
  "ip anonymous = None \<and> remoteAddress anonymous = None \<and>
   rateLimit gamesLimit anonymous 120000 usedUp = (Next None, usedUp)"
proof -
  have h: "ip anonymous = None" "remoteAddress anonymous = None"
    by (simp_all add: anonymous_def)
  show ?thesis using h no_key_leaves_store[OF h, of gamesLimit 120000 usedUp] by simp
qed

end
